theory Spec2Isabelle
  imports Complex_Main
begin

section \<open>The download events of candy: src/electron/ipc/events/downloads.js\<close>

text \<open>
  The module exports \<^verbatim>\<open>getVideoInfo\<close>, \<^verbatim>\<open>startDownload\<close> and \<^verbatim>\<open>cancelDownload\<close> and keeps
  one module-level object, \<^verbatim>\<open>activeDownloads\<close>. A call of \<^verbatim>\<open>startDownload\<close> creates a closure
  (its local variables) and registers listeners on one ytdl stream per source; the
  listeners and the \<^verbatim>\<open>cancel\<close> function stored in \<^verbatim>\<open>activeDownloads\<close> mutate that closure
  later. JavaScript runs every listener to completion, so each listener is one atomic
  transition of the state below.

  Numbers: byte counts and timestamps are integers (exact in a JavaScript double below
  \<open>2 ^ 53\<close>); the speed is a multiple of a quarter and is kept as an exact rational (a
  double holds it exactly as long as it fits 53 bits).
\<close>

subsection \<open>Values passed in and out\<close>

text \<open>What a stream's \<^verbatim>\<open>error\<close> listener receives: a string (the reason given to
  \<^verbatim>\<open>destroy\<close>) or an Error object (with its message). The listener compares it with
  \<^verbatim>\<open>!==\<close> against the string \<^verbatim>\<open>'cancelled'\<close>; an Error object is never equal to a string.\<close>

datatype cause = Str string | ErrorObject string

text \<open>\<^verbatim>\<open>fs.unlinkSync\<close> throws when the path does not exist.\<close>

datatype error = ENOENT string

record source =
  itag :: string
  container :: string

record video_info =
  video_url :: string
  thumbnail_url :: string
  length_seconds :: int
  title :: string
  author_name :: string

record settings =
  set_temporaryDirectory :: string
  set_downloadDirectory :: string
  createChannelDirectory :: bool

text \<open>The argument of \<^verbatim>\<open>startDownload\<close>; \<^verbatim>\<open>playlist\<close> is optional and only its title is read.\<close>

record request =
  req_playlist :: "string option"
  req_format :: string
  req_video :: video_info
  req_sources :: "source list"

text \<open>The \<^verbatim>\<open>add-download\<close> payload (lines 54 to 70).\<close>

record video_payload =
  v_url :: string
  v_thumbnailUrl :: string
  v_duration :: int
  v_title :: string
  v_author :: string

record add_download =
  a_id :: string
  a_destination :: "string option"
  a_sources :: "source list"
  a_size :: int
  a_speed :: rat
  a_progress :: int
  a_status :: string
  a_startTimestamp :: int
  a_video :: video_payload

text \<open>The \<^verbatim>\<open>props\<close> patch of an \<^verbatim>\<open>update-download\<close> message: an object literal with some of
  these keys; an absent key is \<open>None\<close>.\<close>

record props =
  p_progress :: "int option"
  p_speed :: "rat option"
  p_size :: "int option"
  p_status :: "string option"
  p_endTimestamp :: "int option"
  p_destinationFile :: "string option"

definition no_props :: props where
  "no_props = \<lparr>p_progress = None, p_speed = None, p_size = None, p_status = None,
     p_endTimestamp = None, p_destinationFile = None\<rparr>"

datatype message = AddDownload add_download | UpdateDownload string props

text \<open>A call of the conversion backend: the method name, then its two arguments.\<close>

record encoder_call =
  enc_method :: string
  enc_input :: string
  enc_output :: string

subsection \<open>State\<close>

text \<open>The variables of one iteration of the loop over \<^verbatim>\<open>sources\<close> (lines 81 to 169): the
  temporary file, the stream (its quality option and the calls of \<^verbatim>\<open>destroy\<close> it has
  received, each with the reason passed, oldest first) and the three \<^verbatim>\<open>last...\<close> variables.\<close>

record fetcher =
  destinationDirectory :: string
  quality :: string
  destroy_calls :: "string option list"
  lastProgressTimestamp :: int
  lastProgress :: int
  lastSize :: int

text \<open>The local variables of one call of \<^verbatim>\<open>startDownload\<close>. \<^verbatim>\<open>done\<close> is named
  \<open>done_streams\<close>. \<open>destinationFile\<close> is the constant of the \<^verbatim>\<open>end\<close> listener that the
  promise callbacks capture; \<^verbatim>\<open>done\<close> only grows, so the branch that sets it runs at most
  once per download.\<close>

record download =
  downloadId :: string
  sources :: "source list"
  format :: string
  video :: video_info
  playlist :: "string option"
  settings :: settings
  downloadDirectory :: string
  totalProgress :: int
  totalSize :: int
  done_streams :: nat
  destiantions :: "string list"
  sourceStreams :: "fetcher list"
  destinationFile :: "string option"

text \<open>What the listeners do outside the closure: the files on disk, the messages handed to
  the sender, the calls of the encoder, and the exceptions that left a listener uncaught.

  \<^verbatim>\<open>update\<close> is \<^verbatim>\<open>throttleEvent(props => sender.send('update-download', {id, props}))\<close>, and
  \<^verbatim>\<open>throttleEvent\<close> lives in js/utils, outside this file. \<open>sent\<close> records every call of
  \<^verbatim>\<open>update\<close> as the message its callback would send, in call order; which of them the
  throttle lets through is decided in js/utils.\<close>

record proc_state =
  files :: "string set"
  sent :: "message list"
  encoder_calls :: "encoder_call list"
  uncaught :: "error list"

text \<open>The process: the closures of all calls of \<^verbatim>\<open>startDownload\<close> so far (in call order),
  \<^verbatim>\<open>activeDownloads\<close> (a download id maps to the closure its \<^verbatim>\<open>cancel\<close> function belongs to),
  and the number of calls of \<^verbatim>\<open>createUID\<close> so far. The keys of \<^verbatim>\<open>activeDownloads\<close> are download
  ids; the properties that every JavaScript object inherits are not keys of the map.\<close>

record world =
  closures :: "download list"
  activeDownloads :: "string \<rightharpoonup> nat"
  proc :: proc_state
  uid_calls :: nat

definition init_world :: world where
  "init_world = \<lparr>closures = [], activeDownloads = Map.empty,
     proc = \<lparr>files = {}, sent = [], encoder_calls = [], uncaught = []\<rparr>, uid_calls = 0\<rparr>"

subsection \<open>Library functions\<close>

text \<open>Node's \<^verbatim>\<open>path.join\<close> and \<^verbatim>\<open>path.resolve\<close>, on a normalised directory and a relative
  segment, where both put a separator between the two.\<close>

definition path_join :: "string \<Rightarrow> string \<Rightarrow> string" where
  "path_join a b = a @ ''/'' @ b"

definition path_resolve :: "string \<Rightarrow> string \<Rightarrow> string" where
  "path_resolve a b = a @ ''/'' @ b"

text \<open>Modelled from the spec: \<^verbatim>\<open>mkdirIfNotPresent\<close> is defined in js/utils, outside src/. The
  spec says the destination is optionally nested under an author-named or playlist-named
  directory, so the function yields the directory path it is given.\<close>

definition mkdirIfNotPresent :: "string \<Rightarrow> string" where
  "mkdirIfNotPresent p = p"

definition unlinkSync :: "string \<Rightarrow> string set \<Rightarrow> error + string set" where
  "unlinkSync p fs = (if p \<in> fs then Inr (fs - {p}) else Inl (ENOENT p))"

text \<open>\<^verbatim>\<open>destiantions.forEach(fs.unlinkSync)\<close>: the first exception ends the iteration; the
  files unlinked before it stay unlinked.\<close>

fun forEach_unlinkSync :: "string list \<Rightarrow> string set \<Rightarrow> string set \<times> error option" where
  "forEach_unlinkSync [] fs = (fs, None)"
| "forEach_unlinkSync (p # ps) fs =
     (case unlinkSync p fs of
        Inl e \<Rightarrow> (fs, Some e)
      | Inr fs' \<Rightarrow> forEach_unlinkSync ps fs')"

text \<open>\<^verbatim>\<open>s.destroy(reason)\<close>; \<^verbatim>\<open>s.destroy()\<close> passes no reason.\<close>

definition destroy :: "string option \<Rightarrow> fetcher \<Rightarrow> fetcher" where
  "destroy reason s = s\<lparr>destroy_calls := destroy_calls s @ [reason]\<rparr>"

text \<open>\<^verbatim>\<open>update(props)\<close>: the call is recorded with the id of the download. In the properties
  below, an update is published when \<^verbatim>\<open>update\<close> is called with it.\<close>

definition update :: "download \<Rightarrow> props \<Rightarrow> proc_state \<Rightarrow> proc_state" where
  "update d p io = io\<lparr>sent := sent io @ [UpdateDownload (downloadId d) p]\<rparr>"

subsection \<open>Title filter (line 125)\<close>

text \<open>The character class \<^verbatim>\<open>[/\\?%*:|"<>]\<close>: slash, backslash, question mark, percent, star,
  colon, bar, double quote, less, greater.\<close>

definition hostile :: "char list" where
  "hostile = [CHR ''/'', CHR 0x5C, CHR ''?'', CHR ''%'', CHR ''*'', CHR '':'', CHR ''|'',
     CHR 0x22, CHR ''<'', CHR ''>'']"

text \<open>\<^verbatim>\<open>.replace(/[...]/g, ' ')\<close>: every match is one character.\<close>

definition replace_hostile :: "string \<Rightarrow> string" where
  "replace_hostile t = map (\<lambda>c. if c \<in> set hostile then CHR '' '' else c) t"

text \<open>\<^verbatim>\<open>.replace(/ +/g, ' ')\<close>: scanning from the left, a match starts at a space and takes
  all spaces that follow it (the quantifier is greedy); it is replaced by one space and
  the scan goes on behind the match.\<close>

function replace_spaces :: "string \<Rightarrow> string" where
  "replace_spaces [] = []"
| "replace_spaces (c # cs) =
     (if c = CHR '' '' then CHR '' '' # replace_spaces (dropWhile (\<lambda>x. x = CHR '' '') cs)
      else c # replace_spaces cs)"
  by pat_completeness auto
termination
  by (relation "measure length") (auto simp: le_imp_less_Suc length_dropWhile_le)

definition filteredTitle :: "string \<Rightarrow> string" where
  "filteredTitle t = replace_spaces (replace_hostile t)"

text \<open>The spec's wording, for comparison: each forbidden character becomes a single space,
  then a space that follows a space is dropped.\<close>

fun collapse_spec :: "string \<Rightarrow> string" where
  "collapse_spec [] = []"
| "collapse_spec [c] = [c]"
| "collapse_spec (a # b # cs) =
     (if a = CHR '' '' \<and> b = CHR '' '' then collapse_spec (b # cs)
      else a # collapse_spec (b # cs))"

definition sanitize_spec :: "string \<Rightarrow> string" where
  "sanitize_spec t = collapse_spec (map (\<lambda>c. if c \<in> {CHR ''/'', CHR 0x5C, CHR ''?'', CHR ''%'',
     CHR ''*'', CHR '':'', CHR ''|'', CHR 0x22, CHR ''<'', CHR ''>''} then CHR '' '' else c) t)"

subsection \<open>The listeners of one download\<close>

text \<open>Each listener belongs to the iteration \<open>i\<close> of the loop; there is no listener for
  an index beyond the streams created. \<^verbatim>\<open>console.error\<close> is not modelled.\<close>

text \<open>Lines 98 to 111. \<^verbatim>\<open>Date.now()\<close> is read twice: \<open>now\<close> in the speed, \<open>now'\<close> when the
  timestamp is stored. \<^verbatim>\<open>toFixed(1)\<close> of the integer difference prints it with one
  decimal, and the multiplication reads that string back as the same number.\<close>

definition on_progress ::
  "nat \<Rightarrow> int \<Rightarrow> int \<Rightarrow> int \<Rightarrow> int \<Rightarrow> download \<times> proc_state \<Rightarrow> download \<times> proc_state" where
  "on_progress i progress size' now now' = (\<lambda>(d, io).
     if i < length (sourceStreams d) then
       let s = sourceStreams d ! i;
           totalProgress1 = totalProgress d + (progress - lastProgress s);
           totalSize1 = totalSize d - lastSize s;
           speed = (of_int (lastProgress s + progress) / 4) * of_int (now - lastProgressTimestamp s);
           totalSize2 = totalSize1 + size';
           io1 = update d (no_props\<lparr>p_progress := Some totalProgress1, p_speed := Some speed,
                   p_size := Some totalSize2\<rparr>) io;
           s1 = s\<lparr>lastSize := size', lastProgress := progress, lastProgressTimestamp := now'\<rparr>
       in (d\<lparr>totalProgress := totalProgress1, totalSize := totalSize2,
              sourceStreams := (sourceStreams d)[i := s1]\<rparr>, io1)
     else (d, io))"

text \<open>Lines 113 to 139: the \<^verbatim>\<open>end\<close> listener up to the call of the encoder.\<close>

definition on_end :: "nat \<Rightarrow> download \<times> proc_state \<Rightarrow> download \<times> proc_state" where
  "on_end i = (\<lambda>(d, io).
     if i < length (sourceStreams d) then
       let d1 = d\<lparr>done_streams := done_streams d + 1\<rparr> in
       if done_streams d1 = length (sources d1) then
         let io1 = update d1 (no_props\<lparr>p_progress := Some (totalSize d1),
                     p_size := Some (totalSize d1), p_status := Some ''convert''\<rparr>) io;
             filteredTitle' = filteredTitle (title (video d1));
             dir1 = (if createChannelDirectory (settings d1)
                     then mkdirIfNotPresent (path_resolve (downloadDirectory d1) (author_name (video d1)))
                     else downloadDirectory d1);
             dir2 = (case playlist d1 of
                       Some playlist_title \<Rightarrow> mkdirIfNotPresent (path_resolve dir1 playlist_title)
                     | None \<Rightarrow> dir1);
             destinationFile' = path_join dir2 (filteredTitle' @ ''.'' @ format d1);
             call = \<lparr>enc_method = (if length (sources d1) = 1 then ''convert'' else ''merge''),
                      enc_input = destinationDirectory (sourceStreams d1 ! i),
                      enc_output = destinationFile'\<rparr>
         in (d1\<lparr>downloadDirectory := dir2, destinationFile := Some destinationFile'\<rparr>,
             io1\<lparr>encoder_calls := encoder_calls io1 @ [call]\<rparr>)
       else (d1, io)
     else (d, io))"

text \<open>Lines 150 to 154: the \<^verbatim>\<open>finally\<close> callback. An exception of \<^verbatim>\<open>unlinkSync\<close> rejects
  the promise, and nothing handles the rejection.\<close>

definition unlink_temporary :: "download \<Rightarrow> proc_state \<Rightarrow> proc_state" where
  "unlink_temporary d io =
     (case forEach_unlinkSync (destiantions d) (files io) of
        (fs, None) \<Rightarrow> io\<lparr>files := fs\<rparr>
      | (fs, Some e) \<Rightarrow> io\<lparr>files := fs, uncaught := uncaught io @ [e]\<rparr>)"

text \<open>Lines 139 to 154: the encoder's promise resolves (\<^verbatim>\<open>then\<close>, \<^verbatim>\<open>finally\<close>) or rejects
  (\<^verbatim>\<open>catch\<close>, \<^verbatim>\<open>finally\<close>). There is no promise before the \<^verbatim>\<open>end\<close> listener has called
  the encoder.\<close>

definition encoder_resolved :: "int \<Rightarrow> download \<times> proc_state \<Rightarrow> download \<times> proc_state" where
  "encoder_resolved now = (\<lambda>(d, io).
     case destinationFile d of
       None \<Rightarrow> (d, io)
     | Some f \<Rightarrow>
         (d, unlink_temporary d (update d (no_props\<lparr>p_status := Some ''finish'',
               p_endTimestamp := Some now, p_destinationFile := Some f\<rparr>) io)))"

definition encoder_rejected :: "download \<times> proc_state \<Rightarrow> download \<times> proc_state" where
  "encoder_rejected = (\<lambda>(d, io).
     case destinationFile d of
       None \<Rightarrow> (d, io)
     | Some f \<Rightarrow> (d, unlink_temporary d (update d (no_props\<lparr>p_status := Some ''errored''\<rparr>) io)))"

text \<open>Lines 158 to 168. When \<^verbatim>\<open>unlinkSync\<close> throws, the listener ends there: the streams
  are destroyed already, \<^verbatim>\<open>update\<close> is not reached.\<close>

definition on_error :: "nat \<Rightarrow> cause \<Rightarrow> download \<times> proc_state \<Rightarrow> download \<times> proc_state" where
  "on_error i e = (\<lambda>(d, io).
     if i < length (sourceStreams d) then
       if e \<noteq> Str ''cancelled'' then
         let d1 = d\<lparr>sourceStreams := map (destroy None) (sourceStreams d)\<rparr> in
         case forEach_unlinkSync (destiantions d1) (files io) of
           (fs, Some err) \<Rightarrow> (d1, io\<lparr>files := fs, uncaught := uncaught io @ [err]\<rparr>)
         | (fs, None) \<Rightarrow> (d1, update d1 (no_props\<lparr>p_status := Some ''errored''\<rparr>) (io\<lparr>files := fs\<rparr>))
       else (d, io)
     else (d, io))"

text \<open>Lines 173 to 176.\<close>

definition cancel :: "download \<times> proc_state \<Rightarrow> download \<times> proc_state" where
  "cancel = (\<lambda>(d, io).
     (d\<lparr>sourceStreams := map (destroy (Some ''cancelled'')) (sourceStreams d)\<rparr>,
      update d (no_props\<lparr>p_status := Some ''cancelled''\<rparr>) io))"

subsection \<open>The exported functions\<close>

text \<open>\<^verbatim>\<open>createUID\<close> is defined in js/utils, outside src/; it is a parameter here: the
  function \<open>createUID\<close> gives the value its \<open>n\<close>-th call returns.

  One iteration of the loop, lines 82 to 97: the write stream creates the temporary file,
  the path and the stream are pushed.\<close>

fun spawn_streams ::
  "(nat \<Rightarrow> string) \<Rightarrow> string \<Rightarrow> source list \<Rightarrow> string list \<times> fetcher list \<times> string set \<times> nat
     \<Rightarrow> string list \<times> fetcher list \<times> string set \<times> nat" where
  "spawn_streams createUID temporaryDirectory [] st = st"
| "spawn_streams createUID temporaryDirectory (src # rest) (dests, streams, fs, n) =
     (let destinationDirectory' = path_join temporaryDirectory (createUID n @ ''.'' @ container src);
          sourceStream = \<lparr>destinationDirectory = destinationDirectory', quality = itag src,
             destroy_calls = [], lastProgressTimestamp = 0, lastProgress = 0, lastSize = 0\<rparr>
      in spawn_streams createUID temporaryDirectory rest
           (dests @ [destinationDirectory'], streams @ [sourceStream],
            insert destinationDirectory' fs, n + 1))"

text \<open>Lines 47 to 180. \<open>settings'\<close> is what \<^verbatim>\<open>getSettings()\<close> resolved to, \<open>now\<close> is
  \<^verbatim>\<open>Date.now()\<close>. The result is the returned string and the new state.\<close>

definition startDownload ::
  "(nat \<Rightarrow> string) \<Rightarrow> request \<Rightarrow> settings \<Rightarrow> int \<Rightarrow> world \<Rightarrow> string \<times> world" where
  "startDownload createUID req settings' now w =
     (let downloadId' = createUID (uid_calls w);
          io1 = (proc w)\<lparr>sent := sent (proc w) @ [AddDownload \<lparr>
             a_id = downloadId', a_destination = None, a_sources = req_sources req,
             a_size = 1, a_speed = 0, a_progress = 0, a_status = ''progress'',
             a_startTimestamp = now,
             a_video = \<lparr>v_url = video_url (req_video req),
               v_thumbnailUrl = thumbnail_url (req_video req),
               v_duration = length_seconds (req_video req),
               v_title = title (req_video req), v_author = author_name (req_video req)\<rparr>\<rparr>]\<rparr>
      in case spawn_streams createUID (set_temporaryDirectory settings') (req_sources req)
                ([], [], files io1, uid_calls w + 1) of
           (dests, streams, fs, n) \<Rightarrow>
             (''ok'',
              w\<lparr>closures := closures w @ [\<lparr>downloadId = downloadId', sources = req_sources req,
                   format = req_format req, video = req_video req, playlist = req_playlist req,
                   settings = settings', downloadDirectory = set_downloadDirectory settings',
                   totalProgress = 0, totalSize = 0, done_streams = 0,
                   destiantions = dests, sourceStreams = streams, destinationFile = None\<rparr>],
                 activeDownloads := (activeDownloads w)(downloadId' \<mapsto> length (closures w)),
                 proc := io1\<lparr>files := fs\<rparr>,
                 uid_calls := n\<rparr>))"

text \<open>A listener of closure \<open>k\<close> runs on that closure and on the process.\<close>

definition in_closure ::
  "nat \<Rightarrow> (download \<times> proc_state \<Rightarrow> download \<times> proc_state) \<Rightarrow> world \<Rightarrow> world" where
  "in_closure k h w =
     (if k < length (closures w) then
        (case h (closures w ! k, proc w) of
           (d, io) \<Rightarrow> w\<lparr>closures := (closures w)[k := d], proc := io\<rparr>)
      else w)"

text \<open>Lines 188 to 192.\<close>

definition cancelDownload :: "string \<Rightarrow> world \<Rightarrow> string \<times> world" where
  "cancelDownload downloadId' w =
     (case activeDownloads w downloadId' of
        None \<Rightarrow> (''ok'', w)
      | Some k \<Rightarrow> (''ok'', in_closure k cancel w))"

subsection \<open>Runs\<close>

text \<open>The callbacks of one closure that the event loop can invoke: the listeners of its
  stream \<open>i\<close>, and the settling of the encoder's promise.\<close>

datatype callback =
    Progress nat int int int int
  | End nat
  | Error nat cause
  | Resolved int
  | Rejected

fun invoke :: "callback \<Rightarrow> download \<times> proc_state \<Rightarrow> download \<times> proc_state" where
  "invoke (Progress i progress size' now now') = on_progress i progress size' now now'"
| "invoke (End i) = on_end i"
| "invoke (Error i e) = on_error i e"
| "invoke (Resolved now) = encoder_resolved now"
| "invoke Rejected = encoder_rejected"

text \<open>Everything that can happen to the process: the two commands, and a callback of
  closure \<open>k\<close>.\<close>

datatype event =
    StartDownload request settings int
  | CancelDownload string
  | Callback nat callback

fun step :: "(nat \<Rightarrow> string) \<Rightarrow> world \<Rightarrow> event \<Rightarrow> world" where
  "step createUID w (StartDownload req settings' now) = snd (startDownload createUID req settings' now w)"
| "step createUID w (CancelDownload downloadId') = snd (cancelDownload downloadId' w)"
| "step createUID w (Callback k c) = in_closure k (invoke c) w"

definition run :: "(nat \<Rightarrow> string) \<Rightarrow> world \<Rightarrow> event list \<Rightarrow> world" where
  "run createUID w evs = foldl (step createUID) w evs"

text \<open>The same for one closure alone: its callbacks, and calls of its \<^verbatim>\<open>cancel\<close> function.\<close>

datatype session_event = Invoke callback | CancelCall

fun session_step :: "download \<times> proc_state \<Rightarrow> session_event \<Rightarrow> download \<times> proc_state" where
  "session_step st (Invoke c) = invoke c st"
| "session_step st CancelCall = cancel st"

definition session_run :: "download \<times> proc_state \<Rightarrow> session_event list \<Rightarrow> download \<times> proc_state" where
  "session_run st evs = foldl session_step st evs"

subsection \<open>Predicates of the properties\<close>

text \<open>No two neighbouring characters are both spaces.\<close>

fun no_double_space :: "string \<Rightarrow> bool" where
  "no_double_space (a # b # cs) = (\<not> (a = CHR '' '' \<and> b = CHR '' '') \<and> no_double_space (b # cs))"
| "no_double_space _ = True"

text \<open>The status a message carries, if any.\<close>

fun status_of :: "message \<Rightarrow> string option" where
  "status_of (AddDownload a) = Some (a_status a)"
| "status_of (UpdateDownload x p) = p_status p"

text \<open>The progress and the size a message carries.\<close>

fun progress_and_size :: "message \<Rightarrow> int option \<times> int option" where
  "progress_and_size (AddDownload a) = (Some (a_progress a), Some (a_size a))"
| "progress_and_size (UpdateDownload x p) = (p_progress p, p_size p)"



text \<open>A progress sample whose progress does not exceed its size; other events pass.\<close>

fun sample_within_size :: "event \<Rightarrow> bool" where
  "sample_within_size (Callback k (Progress i progress size' now now')) = (progress \<le> size')"
| "sample_within_size _ = True"

text \<open>A message that carries both a progress and a size has the progress at most the
  size.\<close>

fun progress_within_size :: "message \<Rightarrow> bool" where
  "progress_within_size (AddDownload a) = (a_progress a \<le> a_size a)"
| "progress_within_size (UpdateDownload x p) =
     (case p_progress p of
        None \<Rightarrow> True
      | Some pr \<Rightarrow> (case p_size p of None \<Rightarrow> True | Some sz \<Rightarrow> pr \<le> sz))"

text \<open>The two totals of a closure are the sums of what its streams reported last, and
  every stream reported a progress within its size.\<close>

definition totals_ok :: "download \<Rightarrow> bool" where
  "totals_ok d \<longleftrightarrow>
     totalProgress d = sum_list (map lastProgress (sourceStreams d)) \<and>
     totalSize d = sum_list (map lastSize (sourceStreams d)) \<and>
     list_all (\<lambda>s. lastProgress s \<le> lastSize s) (sourceStreams d)"

definition world_ok :: "world \<Rightarrow> bool" where
  "world_ok w \<longleftrightarrow>
     list_all totals_ok (closures w) \<and> list_all progress_within_size (sent (proc w))"

subsection \<open>Sample inputs\<close>

definition sample_uid :: "nat \<Rightarrow> string" where
  "sample_uid n = replicate (Suc n) CHR ''u''"

definition sample_video :: video_info where
  "sample_video = \<lparr>video_url = ''https://www.youtube.com/watch?v=x'', thumbnail_url = ''thumb'',
     length_seconds = 10, title = ''My//Video:  Part*1'', author_name = ''me''\<rparr>"

definition sample_settings :: settings where
  "sample_settings = \<lparr>set_temporaryDirectory = ''tmp'', set_downloadDirectory = ''out'',
     createChannelDirectory = False\<rparr>"

definition request0 :: request where
  "request0 = \<lparr>req_playlist = None, req_format = ''mp4'', req_video = sample_video,
     req_sources = []\<rparr>"

definition request1 :: request where
  "request1 = \<lparr>req_playlist = None, req_format = ''mp3'', req_video = sample_video,
     req_sources = [\<lparr>itag = ''140'', container = ''m4a''\<rparr>]\<rparr>"

definition request2 :: request where
  "request2 = \<lparr>req_playlist = None, req_format = ''mp4'', req_video = sample_video,
     req_sources = [\<lparr>itag = ''137'', container = ''mp4''\<rparr>, \<lparr>itag = ''140'', container = ''m4a''\<rparr>]\<rparr>"


text \<open>The only download of a fresh process, with two streams: each has reported once,
  the first has ended.\<close>

definition session2 :: "download \<times> proc_state" where
  "session2 = (let w = run sample_uid init_world
       [StartDownload request2 sample_settings 5,
        Callback 0 (Progress 0 1000 1000 1000 1000),
        Callback 0 (Progress 1 2000 2000 1200 1200),
        Callback 0 (End 0)]
     in (closures w ! 0, proc w))"

text \<open>A run in which the first stream revises its size from 1000 down to 800.\<close>

definition size_shrinks :: "event list" where
  "size_shrinks =
     [StartDownload request2 sample_settings 5,
      Callback 0 (Progress 0 100 1000 1000 1000),
      Callback 0 (Progress 1 50 500 1001 1001),
      Callback 0 (Progress 0 200 800 1002 1002),
      Callback 0 (End 0), Callback 0 (End 1)]"

text \<open>A fresh process after one start with an empty list of sources, and after one start
  with one source.\<close>

definition started0 :: world where
  "started0 = snd (startDownload sample_uid request0 sample_settings 5 init_world)"


section \<open>Properties\<close>

lemmas eval_defs = run_def session_run_def init_world_def startDownload_def cancelDownload_def
  in_closure_def on_progress_def on_end_def on_error_def cancel_def encoder_resolved_def
  encoder_rejected_def unlink_temporary_def unlinkSync_def update_def destroy_def no_props_def
  path_join_def path_resolve_def mkdirIfNotPresent_def filteredTitle_def replace_hostile_def
  hostile_def sample_uid_def sample_video_def sample_settings_def request0_def request1_def
  request2_def Let_def

subsection \<open>The sample states\<close>


lemma session2_value: "session2 =
  (\<lparr>downloadId = ''u'',
     sources = [\<lparr>itag = ''137'', container = ''mp4''\<rparr>, \<lparr>itag = ''140'', container = ''m4a''\<rparr>],
     format = ''mp4'', video = sample_video, playlist = None, settings = sample_settings,
     downloadDirectory = ''out'', totalProgress = 3000, totalSize = 3000, done_streams = 1,
     destiantions = [''tmp/uu.mp4'', ''tmp/uuu.m4a''],
     sourceStreams =
       [\<lparr>destinationDirectory = ''tmp/uu.mp4'', quality = ''137'', destroy_calls = [],
          lastProgressTimestamp = 1000, lastProgress = 1000, lastSize = 1000\<rparr>,
        \<lparr>destinationDirectory = ''tmp/uuu.m4a'', quality = ''140'', destroy_calls = [],
          lastProgressTimestamp = 1200, lastProgress = 2000, lastSize = 2000\<rparr>],
     destinationFile = None\<rparr>,
   \<lparr>files = {''tmp/uuu.m4a'', ''tmp/uu.mp4''},
     sent = [AddDownload \<lparr>a_id = ''u'', a_destination = None,
        a_sources = [\<lparr>itag = ''137'', container = ''mp4''\<rparr>, \<lparr>itag = ''140'', container = ''m4a''\<rparr>],
        a_size = 1, a_speed = 0, a_progress = 0, a_status = ''progress'', a_startTimestamp = 5,
        a_video = \<lparr>v_url = ''https://www.youtube.com/watch?v=x'', v_thumbnailUrl = ''thumb'',
          v_duration = 10, v_title = ''My//Video:  Part*1'', v_author = ''me''\<rparr>\<rparr>,
        UpdateDownload ''u'' \<lparr>p_progress = Some 1000, p_speed = Some 250000, p_size = Some 1000,
          p_status = None, p_endTimestamp = None, p_destinationFile = None\<rparr>,
        UpdateDownload ''u'' \<lparr>p_progress = Some 3000, p_speed = Some 600000, p_size = Some 3000,
          p_status = None, p_endTimestamp = None, p_destinationFile = None\<rparr>],
     encoder_calls = [], uncaught = []\<rparr>)"
  by (simp add: session2_def eval_defs)

subsection \<open>Title filter\<close>

lemma collapse_spec_Cons_other:
  "xs = [] \<or> hd xs \<noteq> CHR '' '' \<or> a \<noteq> CHR '' '' \<Longrightarrow> collapse_spec (a # xs) = a # collapse_spec xs"
  by (cases xs) auto

lemma collapse_spec_skip:
  "collapse_spec (CHR '' '' # cs) = collapse_spec (CHR '' '' # dropWhile (\<lambda>x. x = CHR '' '') cs)"
  by (induction cs) auto

lemma replace_spaces_collapse: "replace_spaces t = collapse_spec t"
proof (induction t rule: replace_spaces.induct)
  case 1
  show ?case by simp
next
  case (2 c cs)
  show ?case
  proof (cases "c = CHR '' ''")
    case True
    let ?r = "dropWhile (\<lambda>x. x = CHR '' '') cs"
    have "?r = [] \<or> hd ?r \<noteq> CHR '' ''"
      using hd_dropWhile [of "\<lambda>x. x = CHR '' ''" cs] by blast
    then have "collapse_spec (CHR '' '' # ?r) = CHR '' '' # collapse_spec ?r"
      by (simp add: collapse_spec_Cons_other)
    with True 2 show ?thesis
      by (simp add: collapse_spec_skip [of cs])
  next
    case False
    with 2 show ?thesis by (simp add: collapse_spec_Cons_other)
  qed
qed

lemma set_hostile: "set hostile = {CHR ''/'', CHR 0x5C, CHR ''?'', CHR ''%'',
     CHR ''*'', CHR '':'', CHR ''|'', CHR 0x22, CHR ''<'', CHR ''>''}"
  by (simp add: hostile_def)

lemma filteredTitle_refines: "filteredTitle t = sanitize_spec t"
  by (simp add: filteredTitle_def sanitize_spec_def replace_hostile_def replace_spaces_collapse set_hostile)

lemma in_set_dropWhile_or: "x \<in> set cs \<Longrightarrow> x \<in> set (dropWhile P cs) \<or> P x"
  by (induction cs) auto

lemma set_replace_spaces: "set (replace_spaces t) = set t"
  by (induction t rule: replace_spaces.induct) (auto dest: set_dropWhileD in_set_dropWhile_or)

lemma collapse_spec_head: "\<exists>r. collapse_spec (b # cs) = b # r"
  by (induction cs arbitrary: b) auto

lemma no_double_space_collapse: "no_double_space (collapse_spec t)"
proof (induction t rule: collapse_spec.induct)
  case (3 a b cs)
  obtain r where r: "collapse_spec (b # cs) = b # r"
    using collapse_spec_head by blast
  with 3 show ?case by auto
qed simp_all

text \<open>
  Claim C9. For every title, the title used in the destination file name (line 125) is
  the title with each of the characters \<^verbatim>\<open>/ \ ? % * : | " < >\<close> replaced by one space and
  every run of spaces then collapsed to one space: the two regular-expression
  replacements of the source compute what the spec's wording describes, the result holds
  none of the ten characters and no two neighbouring spaces, and the title
  \<^verbatim>\<open>My//Video:  Part*1\<close> becomes \<^verbatim>\<open>My Video Part 1\<close>.
\<close>

theorem filteredTitle_sanitizes:
  "filteredTitle t = sanitize_spec t \<and>
   set (filteredTitle t) \<inter> set hostile = {} \<and>
   no_double_space (filteredTitle t) \<and>
   filteredTitle ''My//Video:  Part*1'' = ''My Video Part 1''"
proof -
  have "set (filteredTitle t) \<inter> set hostile = {}"
    by (auto simp: filteredTitle_def set_replace_spaces replace_hostile_def hostile_def)
  moreover have "no_double_space (filteredTitle t)"
    by (simp add: filteredTitle_def replace_spaces_collapse no_double_space_collapse)
  moreover have "filteredTitle ''My//Video:  Part*1'' = ''My Video Part 1''"
    by (simp add: filteredTitle_def replace_hostile_def hostile_def)
  ultimately show ?thesis
    by (simp add: filteredTitle_refines)
qed

subsection \<open>Aggregate progress and size\<close>

lemma sum_list_map_update:
  fixes f :: "'a \<Rightarrow> int"
  shows "i < length xs \<Longrightarrow> sum_list (map f (xs[i := x])) = sum_list (map f xs) - f (xs ! i) + f x"
proof (induction xs arbitrary: i)
  case Nil
  then show ?case by simp
next
  case (Cons a xs)
  then show ?case by (cases i) auto
qed

lemma list_all_update: "list_all P xs \<Longrightarrow> P x \<Longrightarrow> list_all P (xs[i := x])"
  by (induction xs arbitrary: i) (auto split: nat.splits)

lemma sum_list_le_pointwise:
  fixes f g :: "'a \<Rightarrow> int"
  shows "list_all (\<lambda>s. f s \<le> g s) xs \<Longrightarrow> sum_list (map f xs) \<le> sum_list (map g xs)"
  by (induction xs) auto

lemma totals_ok_le: "totals_ok d \<Longrightarrow> totalProgress d \<le> totalSize d"
  by (simp add: totals_ok_def sum_list_le_pointwise)

lemma on_progress_ok:
  assumes "totals_ok d" "list_all progress_within_size (sent io)" "progress \<le> size'"
  shows "totals_ok (fst (on_progress i progress size' now now' (d, io))) \<and>
         list_all progress_within_size (sent (snd (on_progress i progress size' now now' (d, io))))"
proof (cases "i < length (sourceStreams d)")
  case False
  with assms show ?thesis by (simp add: on_progress_def)
next
  case True
  let ?s = "sourceStreams d ! i"
  let ?s1 = "?s\<lparr>lastSize := size', lastProgress := progress, lastProgressTimestamp := now'\<rparr>"
  let ?d1 = "d\<lparr>totalProgress := totalProgress d + (progress - lastProgress ?s),
     totalSize := totalSize d - lastSize ?s + size', sourceStreams := (sourceStreams d)[i := ?s1]\<rparr>"
  have d1: "fst (on_progress i progress size' now now' (d, io)) = ?d1"
    using True by (simp add: on_progress_def Let_def)
  have ok1: "totals_ok ?d1"
    using assms(1,3) True
    by (simp add: totals_ok_def sum_list_map_update list_all_update)
  then have "totalProgress ?d1 \<le> totalSize ?d1"
    by (rule totals_ok_le)
  then have "list_all progress_within_size (sent (snd (on_progress i progress size' now now' (d, io))))"
    using True assms(2) by (simp add: on_progress_def Let_def update_def no_props_def)
  with d1 ok1 show ?thesis by simp
qed

lemma totals_ok_destroy:
  "totals_ok d \<Longrightarrow> totals_ok (d\<lparr>sourceStreams := map (destroy r) (sourceStreams d)\<rparr>)"
  by (simp add: totals_ok_def destroy_def comp_def list_all_iff)

lemma on_end_ok:
  assumes "totals_ok d" "list_all progress_within_size (sent io)"
  shows "totals_ok (fst (on_end i (d, io))) \<and>
         list_all progress_within_size (sent (snd (on_end i (d, io))))"
  using assms by (simp add: on_end_def Let_def totals_ok_def update_def no_props_def)

lemma on_error_ok:
  assumes "totals_ok d" "list_all progress_within_size (sent io)"
  shows "totals_ok (fst (on_error i e (d, io))) \<and>
         list_all progress_within_size (sent (snd (on_error i e (d, io))))"
  using assms totals_ok_destroy [OF assms(1), of None]
  by (simp add: on_error_def Let_def update_def no_props_def split: prod.splits option.splits)

lemma sent_unlink_temporary: "sent (unlink_temporary d io) = sent io"
  by (simp add: unlink_temporary_def split: prod.splits option.splits)

lemma encoder_resolved_ok:
  assumes "totals_ok d" "list_all progress_within_size (sent io)"
  shows "totals_ok (fst (encoder_resolved now (d, io))) \<and>
         list_all progress_within_size (sent (snd (encoder_resolved now (d, io))))"
  using assms
  by (simp add: encoder_resolved_def sent_unlink_temporary update_def no_props_def split: option.splits)

lemma encoder_rejected_ok:
  assumes "totals_ok d" "list_all progress_within_size (sent io)"
  shows "totals_ok (fst (encoder_rejected (d, io))) \<and>
         list_all progress_within_size (sent (snd (encoder_rejected (d, io))))"
  using assms
  by (simp add: encoder_rejected_def sent_unlink_temporary update_def no_props_def split: option.splits)

lemma cancel_ok:
  assumes "totals_ok d" "list_all progress_within_size (sent io)"
  shows "totals_ok (fst (cancel (d, io))) \<and>
         list_all progress_within_size (sent (snd (cancel (d, io))))"
  using assms totals_ok_destroy [OF assms(1), of "Some ''cancelled''"]
  by (simp add: cancel_def update_def no_props_def)

lemma in_closure_ok:
  assumes h: "\<And>d io. totals_ok d \<Longrightarrow> list_all progress_within_size (sent io) \<Longrightarrow>
             totals_ok (fst (h (d, io))) \<and> list_all progress_within_size (sent (snd (h (d, io))))"
    and w: "world_ok w"
  shows "world_ok (in_closure k h w)"
proof (cases "k < length (closures w)")
  case False
  with w show ?thesis by (simp add: in_closure_def)
next
  case True
  from w True have "totals_ok (closures w ! k)"
    by (simp add: world_ok_def list_all_length)
  moreover from w have "list_all progress_within_size (sent (proc w))"
    by (simp add: world_ok_def)
  ultimately have "totals_ok (fst (h (closures w ! k, proc w))) \<and>
      list_all progress_within_size (sent (snd (h (closures w ! k, proc w))))"
    by (rule h)
  with w True show ?thesis
    by (auto simp: in_closure_def world_ok_def list_all_update split: prod.splits)
qed

lemma spawn_streams_fresh:
  "spawn_streams createUID tmp srcs (dests, streams, fs, n) = (dests', streams', fs', n') \<Longrightarrow>
   list_all (\<lambda>s. lastProgress s = 0 \<and> lastSize s = 0) streams \<Longrightarrow>
   list_all (\<lambda>s. lastProgress s = 0 \<and> lastSize s = 0) streams'"
  by (induction srcs arbitrary: dests streams fs n) (auto simp: Let_def)

lemma sum_list_all_zero:
  fixes f :: "'a \<Rightarrow> int"
  shows "list_all (\<lambda>s. f s = 0) xs \<Longrightarrow> sum_list (map f xs) = 0"
  by (induction xs) auto

lemma startDownload_ok:
  assumes "world_ok w"
  shows "world_ok (snd (startDownload createUID req settings' now w))"
proof -
  obtain dests streams fs n where sp:
    "spawn_streams createUID (set_temporaryDirectory settings') (req_sources req)
       ([], [], files (proc w), uid_calls w + 1) = (dests, streams, fs, n)"
    by (cases "spawn_streams createUID (set_temporaryDirectory settings') (req_sources req)
       ([], [], files (proc w), uid_calls w + 1)") auto
  have z: "list_all (\<lambda>s. lastProgress s = 0 \<and> lastSize s = 0) streams"
    using spawn_streams_fresh [OF sp] by simp
  then have "list_all (\<lambda>s. lastProgress s = 0) streams" "list_all (\<lambda>s. lastSize s = 0) streams"
    "list_all (\<lambda>s. lastProgress s \<le> lastSize s) streams"
    by (simp_all add: list_all_iff)
  then have "sum_list (map lastProgress streams) = 0" "sum_list (map lastSize streams) = 0"
    "list_all (\<lambda>s. lastProgress s \<le> lastSize s) streams"
    by (simp_all add: sum_list_all_zero)
  with assms sp show ?thesis
    by (simp add: startDownload_def Let_def world_ok_def totals_ok_def)
qed

lemma step_ok:
  assumes "world_ok w" "sample_within_size ev"
  shows "world_ok (step createUID w ev)"
proof (cases ev)
  case (StartDownload req st now)
  with assms show ?thesis by (simp add: startDownload_ok)
next
  case (CancelDownload x)
  with assms show ?thesis
    by (simp add: cancelDownload_def in_closure_ok cancel_ok split: option.splits)
next
  case (Callback k c)
  show ?thesis
  proof (cases c)
    case (Progress i progress size' now now')
    with Callback assms show ?thesis
      by (simp add: in_closure_ok on_progress_ok)
  next
    case (End i)
    with Callback assms show ?thesis by (simp add: in_closure_ok on_end_ok)
  next
    case (Error i e)
    with Callback assms show ?thesis by (simp add: in_closure_ok on_error_ok)
  next
    case (Resolved now)
    with Callback assms show ?thesis by (simp add: in_closure_ok encoder_resolved_ok)
  next
    case Rejected
    with Callback assms show ?thesis by (simp add: in_closure_ok encoder_rejected_ok)
  qed
qed

lemma run_ok:
  "world_ok w \<Longrightarrow> list_all sample_within_size evs \<Longrightarrow> world_ok (run createUID w evs)"
  unfolding run_def by (induction evs arbitrary: w) (auto simp: step_ok)

lemma init_world_ok: "world_ok init_world"
  by (simp add: world_ok_def init_world_def)

text \<open>
  Claim C4. In every run of the process from its start (any downloads, any interleaving
  of their callbacks and of cancel requests), if each progress sample reports a progress
  not exceeding the size it reports, then every message handed to the sender that carries
  both a progress and a size (the initial payload, a progress update, the convert update)
  has the progress at most the size. A stream may report a smaller size than before: the
  listener takes the stream's previous size out of the total before it adds the new one.
\<close>

theorem progress_never_exceeds_size:
  assumes "list_all sample_within_size evs"
  shows "list_all progress_within_size (sent (proc (run createUID init_world evs)))"
  using run_ok [OF init_world_ok assms] by (simp add: world_ok_def)

text \<open>A run with two streams in which the first revises its size from 1000 down to 800:
  the pairs of progress and size handed to the sender, in order.\<close>

theorem progress_never_exceeds_size_witness:
  "list_all sample_within_size size_shrinks \<and>
   list_all progress_within_size (sent (proc (run sample_uid init_world size_shrinks))) \<and>
   map progress_and_size (sent (proc (run sample_uid init_world size_shrinks))) =
     [(Some 0, Some 1), (Some 100, Some 1000), (Some 150, Some 1500), (Some 250, Some 1300),
      (Some 1300, Some 1300)]"
proof -
  have h: "list_all sample_within_size size_shrinks"
    by (simp add: size_shrinks_def)
  have v: "map progress_and_size (sent (proc (run sample_uid init_world size_shrinks))) =
     [(Some 0, Some 1), (Some 100, Some 1000), (Some 150, Some 1500), (Some 250, Some 1300),
      (Some 1300, Some 1300)]"
    by (simp add: size_shrinks_def eval_defs)
  from progress_never_exceeds_size [OF h, of sample_uid] h v show ?thesis
    by blast
qed

subsection \<open>Completion\<close>

text \<open>
  Claim C8. The \<^verbatim>\<open>end\<close> listener of every stream adds one to the done counter. Exactly
  when the counter then equals the number of sources, it hands one update to the sender:
  status \<^verbatim>\<open>convert\<close>, with progress and size both equal to the total size; otherwise it
  hands over nothing. When two streams report the final sizes 1000 and 2000 and both end,
  the last update is the convert update with size 3000 and progress 3000.
\<close>

theorem end_counts_then_converts:
  assumes "i < length (sourceStreams d)"
  shows "done_streams (fst (on_end i (d, io))) = done_streams d + 1 \<and>
     sent (snd (on_end i (d, io))) =
       (if done_streams d + 1 = length (sources d)
        then sent io @ [UpdateDownload (downloadId d)
               (no_props\<lparr>p_progress := Some (totalSize d), p_size := Some (totalSize d),
                  p_status := Some ''convert''\<rparr>)]
        else sent io) \<and>
     last (sent (proc (run sample_uid init_world
       [StartDownload request2 sample_settings 5,
        Callback 0 (Progress 0 1000 1000 1000 1000),
        Callback 0 (Progress 1 2000 2000 1200 1200),
        Callback 0 (End 0), Callback 0 (End 1)]))) =
       UpdateDownload ''u'' (no_props\<lparr>p_progress := Some 3000, p_size := Some 3000,
                  p_status := Some ''convert''\<rparr>)"
proof -
  have "last (sent (proc (run sample_uid init_world
       [StartDownload request2 sample_settings 5,
        Callback 0 (Progress 0 1000 1000 1000 1000),
        Callback 0 (Progress 1 2000 2000 1200 1200),
        Callback 0 (End 0), Callback 0 (End 1)]))) =
       UpdateDownload ''u'' (no_props\<lparr>p_progress := Some 3000, p_size := Some 3000,
                  p_status := Some ''convert''\<rparr>)"
    by (simp add: eval_defs)
  with assms show ?thesis
    by (simp add: on_end_def Let_def update_def)
qed

text \<open>Two streams, the first has ended: the \<^verbatim>\<open>end\<close> of the second makes the counter 2 and
  publishes \<^verbatim>\<open>convert\<close> with 3000 of 3000.\<close>

theorem end_counts_then_converts_witness:
  "1 < length (sourceStreams (fst session2)) \<and>
   done_streams (fst session2) = 1 \<and>
   map status_of (sent (snd session2)) = [Some ''progress'', None, None] \<and>
   done_streams (fst (on_end 1 session2)) = 2 \<and>
   map status_of (sent (snd (on_end 1 session2))) = [Some ''progress'', None, None, Some ''convert''] \<and>
   map progress_and_size (sent (snd (on_end 1 session2))) =
     [(Some 0, Some 1), (Some 1000, Some 1000), (Some 3000, Some 3000), (Some 3000, Some 3000)]"
  using end_counts_then_converts [of 1 "fst session2" "snd session2"]
  by (simp add: session2_value on_end_def update_def no_props_def Let_def)

subsection \<open>Speed\<close>





subsection \<open>Stream errors\<close>


text \<open>From the start of a download its temporary files are on disk, one per stream, and
  progress samples, \<^verbatim>\<open>end\<close> events, cancelling and \<^verbatim>\<open>cancelled\<close> errors leave the disk as
  it is.\<close>

lemma spawn_streams_on_disk:
  "spawn_streams createUID tmp srcs (dests, streams, fs, n) = (dests', streams', fs', n') \<Longrightarrow>
   set dests \<subseteq> fs \<Longrightarrow> map destinationDirectory streams = dests \<Longrightarrow>
   set dests' \<subseteq> fs' \<and> map destinationDirectory streams' = dests' \<and>
   length streams' = length streams + length srcs"
proof (induction srcs arbitrary: dests streams fs n)
  case Nil
  then show ?case by simp
next
  case (Cons src rest)
  let ?p = "path_join tmp (createUID n @ ''.'' @ container src)"
  let ?s = "\<lparr>destinationDirectory = ?p, quality = itag src,
             destroy_calls = [], lastProgressTimestamp = 0, lastProgress = 0, lastSize = 0\<rparr>"
  from Cons.prems(1) have sp: "spawn_streams createUID tmp rest
      (dests @ [?p], streams @ [?s], insert ?p fs, n + 1) = (dests', streams', fs', n')"
    by (simp add: Let_def)
  have "set (dests @ [?p]) \<subseteq> insert ?p fs" "map destinationDirectory (streams @ [?s]) = dests @ [?p]"
    using Cons.prems(2,3) by auto
  from Cons.IH [OF sp this] show ?case by simp
qed

lemma startDownload_on_disk:
  "set (destiantions (last (closures (snd (startDownload createUID req st now w)))))
     \<subseteq> files (proc (snd (startDownload createUID req st now w))) \<and>
   map destinationDirectory (sourceStreams (last (closures (snd (startDownload createUID req st now w))))) =
     destiantions (last (closures (snd (startDownload createUID req st now w)))) \<and>
   length (sourceStreams (last (closures (snd (startDownload createUID req st now w))))) =
     length (req_sources req)"
proof -
  obtain dests streams fs n where sp:
    "spawn_streams createUID (set_temporaryDirectory st) (req_sources req)
       ([], [], files (proc w), uid_calls w + 1) = (dests, streams, fs, n)"
    by (cases "spawn_streams createUID (set_temporaryDirectory st) (req_sources req)
       ([], [], files (proc w), uid_calls w + 1)") auto
  from spawn_streams_on_disk [OF sp] have "set dests \<subseteq> fs \<and>
      map destinationDirectory streams = dests \<and> length streams = length (req_sources req)"
    by simp
  with sp show ?thesis
    by (simp add: startDownload_def Let_def)
qed

lemma files_kept:
  "files (snd (on_progress i progress size' now now' (d, io))) = files io"
  "files (snd (on_end i (d, io))) = files io"
  "files (snd (cancel (d, io))) = files io"
  "files (snd (on_error i (Str ''cancelled'') (d, io))) = files io"
  by (simp_all add: on_progress_def on_end_def cancel_def on_error_def update_def Let_def)



subsection \<open>The registry\<close>







subsection \<open>A start without sources\<close>

lemma invoke_no_streams:
  "sourceStreams d = [] \<Longrightarrow> destinationFile d = None \<Longrightarrow> invoke c (d, io) = (d, io)"
  by (cases c)
     (simp_all add: on_progress_def on_end_def on_error_def encoder_resolved_def encoder_rejected_def)

lemma cancel_no_streams:
  assumes "sourceStreams d = []"
  shows "cancel (d, io) =
     (d, io\<lparr>sent := sent io @ [UpdateDownload (downloadId d) (no_props\<lparr>p_status := Some ''cancelled''\<rparr>)]\<rparr>)"
proof -
  from assms have "d\<lparr>sourceStreams := []\<rparr> = d" by (cases d) simp
  with assms show ?thesis by (simp add: cancel_def update_def)
qed

lemma session_run_no_streams:
  "sourceStreams d = [] \<Longrightarrow> destinationFile d = None \<Longrightarrow>
   session_run (d, io) evs =
     (d, io\<lparr>sent := sent io @ replicate (count_list evs CancelCall)
            (UpdateDownload (downloadId d) (no_props\<lparr>p_status := Some ''cancelled''\<rparr>))\<rparr>)"
  unfolding session_run_def
proof (induction evs arbitrary: io)
  case Nil
  then show ?case by simp
next
  case (Cons ev evs)
  show ?case
  proof (cases ev)
    case (Invoke c)
    with Cons show ?thesis by (simp add: invoke_no_streams)
  next
    case CancelCall
    with Cons show ?thesis
      by (simp add: cancel_no_streams)
  qed
qed

text \<open>
  Claim C10, as the code has it. A start whose list of sources is empty returns \<^verbatim>\<open>ok\<close>
  and hands the sender exactly the \<^verbatim>\<open>add-download\<close> payload, with the new id and the
  status \<^verbatim>\<open>progress\<close>; the new closure has no stream. Whatever is invoked on that closure
  afterwards, in any order, the only messages it hands to the sender are \<^verbatim>\<open>cancelled\<close>
  updates, one for each call of its \<^verbatim>\<open>cancel\<close> function: no callback of it publishes
  anything, so it never publishes \<^verbatim>\<open>convert\<close>, \<^verbatim>\<open>finish\<close> or \<^verbatim>\<open>errored\<close>, and without a
  cancel request it publishes nothing more at all.
\<close>

theorem no_sources_no_status:
  assumes "req_sources req = []"
  shows "fst (startDownload createUID req st now w) = ''ok'' \<and>
    (\<exists>a. sent (proc (snd (startDownload createUID req st now w))) = sent (proc w) @ [AddDownload a] \<and>
         a_id a = createUID (uid_calls w) \<and> a_status a = ''progress'') \<and>
    sourceStreams (last (closures (snd (startDownload createUID req st now w)))) = [] \<and>
    sent (snd (session_run (last (closures (snd (startDownload createUID req st now w))), io) evs)) =
      sent io @ replicate (count_list evs CancelCall)
        (UpdateDownload (createUID (uid_calls w)) (no_props\<lparr>p_status := Some ''cancelled''\<rparr>))"
  using assms
  by (simp add: startDownload_def Let_def session_run_no_streams)

text \<open>
  Claim C10 as the spec states it fails: after a start without sources, a cancel request
  for the id makes the download publish a further status, \<^verbatim>\<open>cancelled\<close>.
\<close>

theorem no_sources_cancel_publishes:
  "(let w = run sample_uid init_world
       [StartDownload request0 sample_settings 5, CancelDownload ''u'']
    in sourceStreams (closures w ! 0) = [] \<and>
       map status_of (sent (proc w)) = [Some ''progress'', Some ''cancelled''])"
  by (simp add: eval_defs)

text \<open>After a start without sources, five callbacks publish nothing and one call of
  \<^verbatim>\<open>cancel\<close> publishes \<^verbatim>\<open>cancelled\<close>.\<close>

theorem no_sources_no_status_witness:
  "req_sources request0 = [] \<and>
   fst (startDownload sample_uid request0 sample_settings 5 init_world) = ''ok'' \<and>
   map status_of (sent (proc started0)) = [Some ''progress''] \<and>
   sourceStreams (last (closures started0)) = [] \<and>
   map status_of (sent (snd (session_run (last (closures started0), proc started0)
      [Invoke (End 0), Invoke (Progress 0 1 2 3 4), Invoke (Error 0 (ErrorObject ''ECONNRESET'')),
       Invoke (Resolved 9), Invoke Rejected, CancelCall]))) =
     [Some ''progress'', Some ''cancelled'']"
  using no_sources_no_status [of request0 sample_uid sample_settings 5 init_world "proc started0"
     "[Invoke (End 0), Invoke (Progress 0 1 2 3 4), Invoke (Error 0 (ErrorObject ''ECONNRESET'')),
       Invoke (Resolved 9), Invoke Rejected, CancelCall]"]
  by (simp add: started0_def eval_defs)

subsection \<open>Cancelling\<close>

text \<open>
  Claim C1 on the code, at a download with one stream in progress. \<^verbatim>\<open>cancelDownload\<close>
  destroys the stream with the reason \<^verbatim>\<open>cancelled\<close> and hands the \<^verbatim>\<open>cancelled\<close> update to
  the sender; the stream's \<^verbatim>\<open>error\<close> listener then receives \<^verbatim>\<open>cancelled\<close>. Neither unlinks
  anything: the temporary file of the download is still on disk.
\<close>

theorem cancel_keeps_temporary_files:
  "(let w = run sample_uid init_world
       [StartDownload request1 sample_settings 5,
        Callback 0 (Progress 0 100 1000 1000 1000),
        CancelDownload ''u'',
        Callback 0 (Error 0 (Str ''cancelled''))]
    in map destroy_calls (sourceStreams (closures w ! 0)) = [[Some ''cancelled'']] \<and>
       map status_of (sent (proc w)) = [Some ''progress'', None, Some ''cancelled''] \<and>
       destiantions (closures w ! 0) = [''tmp/uu.m4a''] \<and>
       files (proc w) = {''tmp/uu.m4a''})"
  by (simp add: eval_defs)

text \<open>
  Claim C5 on the code, at a download with one stream that has finished: the stream
  ended, the encoder succeeded, \<^verbatim>\<open>finish\<close> was published. A cancel request for its id is
  not ignored: the stream is destroyed with the reason \<^verbatim>\<open>cancelled\<close> and the \<^verbatim>\<open>cancelled\<close>
  update follows \<^verbatim>\<open>finish\<close>. A progress sample that arrives later is not ignored either:
  it is published as a further update.
\<close>

theorem cancel_after_finish_takes_effect:
  "(let w = run sample_uid init_world
       [StartDownload request1 sample_settings 5,
        Callback 0 (End 0), Callback 0 (Resolved 99),
        CancelDownload ''u'',
        Callback 0 (Progress 0 10 20 200 200)]
    in map status_of (sent (proc w)) =
         [Some ''progress'', Some ''convert'', Some ''finish'', Some ''cancelled'', None] \<and>
       map destroy_calls (sourceStreams (closures w ! 0)) = [[Some ''cancelled'']])"
  by (simp add: eval_defs)

subsection \<open>The call of the encoder\<close>

text \<open>
  Claim C2 on the code, at a download with two streams that both end. The encoder's
  \<^verbatim>\<open>merge\<close> is called once, with the final destination path and with one temporary file:
  that of the stream whose \<^verbatim>\<open>end\<close> listener ran last (the listener passes its own
  \<^verbatim>\<open>destinationDirectory\<close>, not the list \<^verbatim>\<open>destiantions\<close>). The temporary file of the other
  stream is not passed.
\<close>

theorem merge_gets_one_temporary_file:
  "(let w = run sample_uid init_world
       [StartDownload request2 sample_settings 5, Callback 0 (End 0), Callback 0 (End 1)]
    in destiantions (closures w ! 0) = [''tmp/uu.mp4'', ''tmp/uuu.m4a''] \<and>
       encoder_calls (proc w) = [\<lparr>enc_method = ''merge'', enc_input = ''tmp/uuu.m4a'',
          enc_output = ''out/My Video Part 1.mp4''\<rparr>]) \<and>
   (let w = run sample_uid init_world
       [StartDownload request2 sample_settings 5, Callback 0 (End 1), Callback 0 (End 0)]
    in encoder_calls (proc w) = [\<lparr>enc_method = ''merge'', enc_input = ''tmp/uu.mp4'',
          enc_output = ''out/My Video Part 1.mp4''\<rparr>])"
  by (simp add: eval_defs)

end
